theory Spec2Isabelle
  imports Main "HOL-Library.Sublist"
begin

section \<open>Data model of \<open>src/analysis/file_change_handler.ts\<close>\<close>

text \<open>
  The editor side. A \<open>vs.TextDocument\<close> is read by the handler through \<open>document.uri\<close>
  and \<open>document.getText()\<close> only; a \<open>vs.TextDocumentContentChangeEvent\<close> through
  \<open>rangeOffset\<close>, \<open>rangeLength\<close> and \<open>text\<close> (the field \<open>text\<close> is named
  \<open>text_c\<close> here, \<open>text\<close> being a keyword of the theory language).
\<close>

record TextDocument =
  uri :: string
  getText :: string

record TextDocumentContentChangeEvent =
  rangeOffset :: nat
  rangeLength :: nat
  text_c :: string

record TextDocumentChangeEvent =
  document :: TextDocument
  contentChanges :: "TextDocumentContentChangeEvent list"

text \<open>
  The protocol side (\<open>analysis_server_types\<close>). \<open>as.SourceEdit\<close> has the fields \<open>id\<close>,
  \<open>length\<close>, \<open>offset\<close> and \<open>replacement\<close> (\<open>id\<close> and \<open>length\<close> are suffixed, both
  being constants of HOL). The three overlay types are told apart by their \<open>type\<close> tag
  \<open>"add"\<close>, \<open>"change"\<close>, \<open>"remove"\<close>: one constructor each.
\<close>

record SourceEdit =
  id_e :: string
  length_e :: nat
  offset :: nat
  replacement :: string

datatype ContentOverlay =
    AddContentOverlay string
  | ChangeContentOverlay "SourceEdit list"
  | RemoveContentOverlay

text \<open>
  What a handler does to the outside, in the order it does it: a call of
  \<open>vs.window.showWarningMessage\<close> with its message, or a call of
  \<open>analyzer.analysisUpdateContent\<close> with the \<open>files\<close> object of its request, an object
  keyed by file path.
\<close>

datatype effect =
    showWarningMessage string
  | analysisUpdateContent "string \<rightharpoonup> ContentOverlay"

text \<open>
  What a handler reads from its surroundings, none of it defined in the file under
  verification: \<open>util.isAnalyzable\<close>, \<open>util.isWithinWorkspace\<close>, \<open>fsPath\<close> and the
  setting \<open>config.warnWhenEditingFilesOutsideWorkspace\<close> (its truthiness). They are read
  anew at every event, so every event comes with its own surroundings.
\<close>

record env =
  isAnalyzable :: "TextDocument \<Rightarrow> bool"
  isWithinWorkspace :: "string \<Rightarrow> bool"
  warnWhenEditingFilesOutsideWorkspace :: bool
  fsPath :: "string \<Rightarrow> string"

text \<open>The handler's own state: the set \<open>filesWarnedAbout\<close>, empty at construction.\<close>

record FileChangeHandler =
  filesWarnedAbout :: "string set"

section \<open>The handlers\<close>

definition convertChange :: "TextDocument \<Rightarrow> TextDocumentContentChangeEvent \<Rightarrow> SourceEdit" where
  "convertChange doc change =
     \<lparr> id_e = '''',
       length_e = rangeLength change,
       offset = rangeOffset change,
       replacement = text_c change \<rparr>"

definition onDidOpenTextDocument ::
  "env \<Rightarrow> TextDocument \<Rightarrow> FileChangeHandler \<Rightarrow> FileChangeHandler \<times> effect list" where
  "onDidOpenTextDocument e doc this =
     (if \<not> isAnalyzable e doc then (this, [])
      else
        let files = Map.empty(fsPath e (uri doc) \<mapsto> AddContentOverlay (getText doc))
        in (this, [analysisUpdateContent files]))"

definition warningMessage :: "string \<Rightarrow> string" where
  "warningMessage filePath =
     ''You are modifying a file outside of your current workspace: '' @ filePath"

definition onDidChangeTextDocument ::
  "env \<Rightarrow> TextDocumentChangeEvent \<Rightarrow> FileChangeHandler \<Rightarrow> FileChangeHandler \<times> effect list" where
  "onDidChangeTextDocument e ev this =
     (if \<not> isAnalyzable e (document ev) then (this, [])
      else if length (contentChanges ev) = 0 then (this, [])
      else
        let filePath = fsPath e (uri (document ev));
            warn = (warnWhenEditingFilesOutsideWorkspace e
                    \<and> filePath \<notin> filesWarnedAbout this
                    \<and> \<not> isWithinWorkspace e filePath);
            shown = (if warn then [showWarningMessage (warningMessage filePath)] else []);
            this' = (if warn
                     then this\<lparr>filesWarnedAbout := insert filePath (filesWarnedAbout this)\<rparr>
                     else this);
            files = Map.empty(filePath \<mapsto>
                      ChangeContentOverlay (map (convertChange (document ev)) (contentChanges ev)))
        in (this', shown @ [analysisUpdateContent files]))"

definition onDidCloseTextDocument ::
  "env \<Rightarrow> TextDocument \<Rightarrow> FileChangeHandler \<Rightarrow> FileChangeHandler \<times> effect list" where
  "onDidCloseTextDocument e doc this =
     (if \<not> isAnalyzable e doc then (this, [])
      else
        let files = Map.empty(fsPath e (uri doc) \<mapsto> RemoveContentOverlay)
        in (this, [analysisUpdateContent files]))"

section \<open>Event sequences\<close>

text \<open>
  The constructor subscribes the three handlers to the editor's three events. An event
  sequence is a list of events, each with the surroundings it is handled in; the effects
  of a sequence are the effects of its events, in order.
\<close>

datatype event =
    DidOpenTextDocument TextDocument
  | DidChangeTextDocument TextDocumentChangeEvent
  | DidCloseTextDocument TextDocument

fun handle :: "env \<Rightarrow> event \<Rightarrow> FileChangeHandler \<Rightarrow> FileChangeHandler \<times> effect list" where
  "handle e (DidOpenTextDocument td) this = onDidOpenTextDocument e td this"
| "handle e (DidChangeTextDocument ev) this = onDidChangeTextDocument e ev this"
| "handle e (DidCloseTextDocument td) this = onDidCloseTextDocument e td this"

fun run :: "(env \<times> event) list \<Rightarrow> FileChangeHandler \<Rightarrow> FileChangeHandler \<times> effect list" where
  "run [] this = (this, [])"
| "run ((e, ev) # rest) this =
     (let (this', out) = handle e ev this;
          (this'', out') = run rest this'
      in (this'', out @ out'))"

text \<open>
  The constructor: an empty \<open>filesWarnedAbout\<close>, then \<open>onDidOpenTextDocument\<close> for every
  document that is already open (\<open>vs.workspace.textDocuments\<close>).
\<close>

definition new_FileChangeHandler ::
  "env \<Rightarrow> TextDocument list \<Rightarrow> FileChangeHandler \<times> effect list" where
  "new_FileChangeHandler e textDocuments =
     run (map (\<lambda>td. (e, DidOpenTextDocument td)) textDocuments) \<lparr> filesWarnedAbout = {} \<rparr>"

text \<open>The document an event is about.\<close>

fun documentOf :: "event \<Rightarrow> TextDocument" where
  "documentOf (DidOpenTextDocument td) = td"
| "documentOf (DidChangeTextDocument ev) = document ev"
| "documentOf (DidCloseTextDocument td) = td"

text \<open>The requests, and the warnings, among a list of effects, in order.\<close>

fun requests :: "effect list \<Rightarrow> (string \<rightharpoonup> ContentOverlay) list" where
  "requests [] = []"
| "requests (analysisUpdateContent files # out) = files # requests out"
| "requests (showWarningMessage m # out) = requests out"

fun warnings :: "effect list \<Rightarrow> string list" where
  "warnings [] = []"
| "warnings (showWarningMessage m # out) = m # warnings out"
| "warnings (analysisUpdateContent files # out) = warnings out"

text \<open>A concrete setting for the worked examples: every document is analyzable, every
  file is in the workspace, the path of a document is its uri.\<close>

definition env0 :: env where
  "env0 = \<lparr> isAnalyzable = (\<lambda>d. True), isWithinWorkspace = (\<lambda>p. True),
            warnWhenEditingFilesOutsideWorkspace = True, fsPath = (\<lambda>u. u) \<rparr>"

text \<open>A second setting: only documents whose uri ends in \<open>.dart\<close> are analyzable, and
  only files under \<open>/w/\<close> are in the workspace.\<close>

definition env1 :: env where
  "env1 = \<lparr> isAnalyzable = (\<lambda>d. suffix ''.dart'' (uri d)),
            isWithinWorkspace = (\<lambda>p. prefix ''/w/'' p),
            warnWhenEditingFilesOutsideWorkspace = True, fsPath = (\<lambda>u. u) \<rparr>"

text \<open>
  Whether some request among the effects puts an add overlay with content \<open>c\<close> on the
  path \<open>p\<close>.
\<close>

fun isAddOf :: "string \<Rightarrow> ContentOverlay option \<Rightarrow> bool" where
  "isAddOf c (Some (AddContentOverlay c')) = (c' = c)"
| "isAddOf c other = False"

fun emitsAdd :: "string \<Rightarrow> string \<Rightarrow> effect list \<Rightarrow> bool" where
  "emitsAdd p c [] = False"
| "emitsAdd p c (analysisUpdateContent files # out) = (isAddOf c (files p) \<or> emitsAdd p c out)"
| "emitsAdd p c (showWarningMessage m # out) = emitsAdd p c out"

section \<open>Replaying the emitted edits\<close>

text \<open>
  The edit lists of the change overlays that the requests among the effects put on the
  path \<open>p\<close>, in the order of the requests.
\<close>

fun editsOf :: "ContentOverlay option \<Rightarrow> SourceEdit list list" where
  "editsOf (Some (ChangeContentOverlay edits)) = [edits]"
| "editsOf other = []"

fun emittedEdits :: "string \<Rightarrow> effect list \<Rightarrow> SourceEdit list list" where
  "emittedEdits p [] = []"
| "emittedEdits p (analysisUpdateContent files # out) = editsOf (files p) @ emittedEdits p out"
| "emittedEdits p (showWarningMessage m # out) = emittedEdits p out"

text \<open>
  Neither the editor's buffer nor the analysis server is part of the repository. What a
  batch of replacements (offset, length removed, new text) does to a text is therefore a
  parameter \<open>ap\<close>: the editor applies the change records of an event to its buffer with
  it, and a replay applies the edits of a change overlay with it; each batch is applied
  to the text the batches before it have left.
\<close>

type_synonym replacementTriple = "nat \<times> nat \<times> string"

definition changeTriple :: "TextDocumentContentChangeEvent \<Rightarrow> replacementTriple" where
  "changeTriple c = (rangeOffset c, rangeLength c, text_c c)"

definition editTriple :: "SourceEdit \<Rightarrow> replacementTriple" where
  "editTriple ed = (offset ed, length_e ed, replacement ed)"

definition editorText ::
  "(replacementTriple list \<Rightarrow> string \<Rightarrow> string) \<Rightarrow>
   TextDocumentContentChangeEvent list list \<Rightarrow> string \<Rightarrow> string" where
  "editorText ap batches pre = fold (\<lambda>changes. ap (map changeTriple changes)) batches pre"

definition replay ::
  "(replacementTriple list \<Rightarrow> string \<Rightarrow> string) \<Rightarrow>
   SourceEdit list list \<Rightarrow> string \<Rightarrow> string" where
  "replay ap batches pre = fold (\<lambda>edits. ap (map editTriple edits)) batches pre"

text \<open>The change records of the events of a sequence, one batch per change event.\<close>

fun changeBatches :: "(env \<times> event) list \<Rightarrow> TextDocumentContentChangeEvent list list" where
  "changeBatches [] = []"
| "changeBatches ((e, DidChangeTextDocument ev) # rest) = contentChanges ev # changeBatches rest"
| "changeBatches ((e, other) # rest) = changeBatches rest"

text \<open>An event that is a change of an analyzable document whose path is \<open>p\<close>.\<close>

fun isChangeOf :: "string \<Rightarrow> env \<times> event \<Rightarrow> bool" where
  "isChangeOf p (e, DidChangeTextDocument ev) =
     (isAnalyzable e (document ev) \<and> fsPath e (uri (document ev)) = p)"
| "isChangeOf p (e, other) = False"

text \<open>One batch semantics for the worked example: the replacements one after the other,
  each cutting \<open>len\<close> characters at \<open>off\<close> and putting \<open>new\<close> there.\<close>

fun splice :: "replacementTriple \<Rightarrow> string \<Rightarrow> string" where
  "splice (off, len, new) s = take off s @ new @ drop (off + len) s"

definition spliceAll :: "replacementTriple list \<Rightarrow> string \<Rightarrow> string" where
  "spliceAll triples s = fold splice triples s"

section \<open>The analysis-round tracker\<close>

text \<open>
  Modelled from the spec: the implementation behind \<open>extApi.currentAnalysis\<close> and
  \<open>extApi.nextAnalysis\<close> is not among the sources (only the test helper
  \<open>waitForNextAnalysis\<close>, which calls them, is). The two notifications of the analysis
  completion protocol, "analysis started" and "analysis finished".
\<close>

datatype notification = AnalysisStarted | AnalysisFinished

text \<open>
  Modelled from the spec: an Analysis Round Token (the implementation of the tokens is not
  among the sources). A token is pending or resolved; a pending token is resolved by an
  "analysis finished" notification, and the token of \<open>awaitNextRound\<close> only after a
  full start-to-finish cycle, so a pending token either still waits for the start of its
  round or waits for the finish.
\<close>

datatype token = PendingStart | PendingFinish | Resolved

text \<open>
  Modelled from the spec: the state of the completion tracker (its implementation is not
  among the sources): the internal busy flag, the tokens handed out so far, a token being
  named by its position, and which of them is the current Analysis Round Token.
\<close>

record CompletionTracker =
  busy :: bool
  current :: nat
  tokens :: "token list"

text \<open>
  Modelled from the spec: the tracker at the start of a session (not among the sources):
  idle, with a pending current token.
\<close>

definition new_CompletionTracker :: CompletionTracker where
  "new_CompletionTracker = \<lparr> busy = False, current = 0, tokens = [PendingFinish] \<rparr>"

text \<open>
  Modelled from the spec: what a notification does to one token (not among the sources).
  A start begins the round of a token that waits for one; a finish resolves a token whose
  round has begun.
\<close>

fun started :: "token \<Rightarrow> token" where
  "started PendingStart = PendingFinish"
| "started PendingFinish = PendingFinish"
| "started Resolved = Resolved"

fun finished :: "token \<Rightarrow> token" where
  "finished PendingStart = PendingStart"
| "finished PendingFinish = Resolved"
| "finished Resolved = Resolved"

text \<open>
  Modelled from the spec: the handler of "analysis started" (not among the sources): "an
  analysis started event transitions an internal flag to busy".
\<close>

definition analysisStarted :: "CompletionTracker \<Rightarrow> CompletionTracker" where
  "analysisStarted t = t\<lparr> busy := True, tokens := map started (tokens t) \<rparr>"

text \<open>
  Modelled from the spec: the handler of "analysis finished" (not among the sources):
  "analysis finished transitions to idle and resolves the current Analysis Round Token,
  immediately allocating a fresh pending token for subsequent waiters".
\<close>

definition analysisFinished :: "CompletionTracker \<Rightarrow> CompletionTracker" where
  "analysisFinished t =
     t\<lparr> busy := False,
        current := length (tokens t),
        tokens := map finished (tokens t) @ [PendingFinish] \<rparr>"

text \<open>
  Modelled from the spec: \<open>awaitCurrentRound\<close> (\<open>extApi.currentAnalysis\<close>, not among the
  sources): it "returns the already in-flight token if busy, or an immediately-resolved
  token if idle". The result is the token and the tracker after the call.
\<close>

definition awaitCurrentRound :: "CompletionTracker \<Rightarrow> nat \<times> CompletionTracker" where
  "awaitCurrentRound t =
     (if busy t then (current t, t)
      else (length (tokens t), t\<lparr> tokens := tokens t @ [Resolved] \<rparr>))"

text \<open>
  Modelled from the spec: \<open>awaitNextRound\<close> (\<open>extApi.nextAnalysis\<close>, not among the
  sources): it "always returns a token that resolves only after at least one full
  start-to-finish cycle occurs after the call": a new token, whatever the busy flag, that
  waits for the start of a round.
\<close>

definition awaitNextRound :: "CompletionTracker \<Rightarrow> nat \<times> CompletionTracker" where
  "awaitNextRound t = (length (tokens t), t\<lparr> tokens := tokens t @ [PendingStart] \<rparr>)"

text \<open>
  Modelled from the spec: what happens to the tracker after a call, one step at a time on
  the single dispatch loop (not among the sources): a notification arrives, or some
  caller asks for the current or for the next round.
\<close>

datatype step = Notify notification | AwaitCurrentRound | AwaitNextRound

fun exec :: "step \<Rightarrow> CompletionTracker \<Rightarrow> CompletionTracker" where
  "exec (Notify AnalysisStarted) t = analysisStarted t"
| "exec (Notify AnalysisFinished) t = analysisFinished t"
| "exec AwaitCurrentRound t = snd (awaitCurrentRound t)"
| "exec AwaitNextRound t = snd (awaitNextRound t)"

text \<open>Modelled from the spec: whether the token \<open>k\<close> is resolved (not among the sources).\<close>

definition resolved :: "nat \<Rightarrow> CompletionTracker \<Rightarrow> bool" where
  "resolved k t = (k < length (tokens t) \<and> tokens t ! k = Resolved)"

text \<open>
  Modelled from the spec: two properties of a sequence of steps, read off the sequence
  alone, in the words of the claim about \<open>awaitNextRound\<close>: an "analysis finished" occurs
  in it; an "analysis started" occurs in it and an "analysis finished" after that, which
  is a full start-to-finish cycle.
\<close>

fun finishOccurs :: "step list \<Rightarrow> bool" where
  "finishOccurs [] = False"
| "finishOccurs (Notify AnalysisFinished # ss) = True"
| "finishOccurs (s # ss) = finishOccurs ss"

fun cycleOccurs :: "step list \<Rightarrow> bool" where
  "cycleOccurs [] = False"
| "cycleOccurs (Notify AnalysisStarted # ss) = finishOccurs ss"
| "cycleOccurs (s # ss) = cycleOccurs ss"

section \<open>Helper facts\<close>

lemma requests_append: "requests (xs @ ys) = requests xs @ requests ys"
  by (induction xs rule: requests.induct) simp_all

lemma warnings_append: "warnings (xs @ ys) = warnings xs @ warnings ys"
  by (induction xs rule: warnings.induct) simp_all

lemma emittedEdits_append: "emittedEdits p (xs @ ys) = emittedEdits p xs @ emittedEdits p ys"
  by (induction p xs rule: emittedEdits.induct) simp_all

lemma emitsAdd_append: "emitsAdd p c (xs @ ys) = (emitsAdd p c xs \<or> emitsAdd p c ys)"
  by (induction p c xs rule: emitsAdd.induct) simp_all

lemma run_append:
  "run (xs @ ys) this =
     (fst (run ys (fst (run xs this))), snd (run xs this) @ snd (run ys (fst (run xs this))))"
  by (induction xs arbitrary: this) (auto simp: split_def Let_def)

lemma run_single: "run [(e, ev)] this = handle e ev this"
  by (simp add: split_def)

lemma convertChange_fun:
  "convertChange doc = (\<lambda>c. \<lparr> id_e = '''', length_e = rangeLength c, offset = rangeOffset c,
                             replacement = text_c c \<rparr>)"
  by (rule ext) (simp add: convertChange_def)

text \<open>Every handler makes at most one request, and its \<open>files\<close> object has the one key
  \<open>fsPath(document.uri)\<close>.\<close>

lemma requests_handle:
  "requests (snd (handle e ev this)) = [] \<or>
   (\<exists>ov. requests (snd (handle e ev this)) = [Map.empty(fsPath e (uri (documentOf ev)) \<mapsto> ov)])"
  by (cases ev)
     (auto simp: onDidOpenTextDocument_def onDidChangeTextDocument_def
        onDidCloseTextDocument_def Let_def requests_append)

lemma requests_run_single_entry:
  "\<forall>files \<in> set (requests (snd (run evs this))). card (dom files) = 1"
proof (induction evs arbitrary: this)
  case Nil
  show ?case by simp
next
  case (Cons a evs)
  obtain e ev where a: "a = (e, ev)" by (cases a)
  have hd: "\<forall>files \<in> set (requests (snd (handle e ev this))). card (dom files) = 1"
    using requests_handle [of e ev this] by (elim disjE exE; simp)
  from hd Cons [of "fst (handle e ev this)"] show ?case
    by (simp add: a split_def Let_def requests_append ball_Un)
qed

text \<open>The warnings of an event sequence: each is about a path that was not in
  \<open>filesWarnedAbout\<close> before and is in it afterwards, and no warning comes twice.\<close>

lemma new_FileChangeHandler_state:
  "fst (run (map (\<lambda>td. (e, DidOpenTextDocument td)) tds) this) = this"
  by (induction tds) (simp_all add: split_def Let_def onDidOpenTextDocument_def)

lemma new_FileChangeHandler_fresh:
  "fst (new_FileChangeHandler e tds) = \<lparr> filesWarnedAbout = {} \<rparr>"
  by (simp add: new_FileChangeHandler_def new_FileChangeHandler_state)

lemma new_FileChangeHandler_no_warnings:
  "warnings (snd (run (map (\<lambda>td. (e, DidOpenTextDocument td)) tds) this)) = []"
  by (induction tds arbitrary: this)
     (simp_all add: split_def Let_def onDidOpenTextDocument_def warnings_append)

lemma warningMessage_inj: "(warningMessage p = warningMessage q) = (p = q)"
  by (simp add: warningMessage_def)

lemma handle_warnings:
  "(warnings (snd (handle e ev this)) = []
      \<and> filesWarnedAbout (fst (handle e ev this)) = filesWarnedAbout this)
   \<or> (\<exists>p. p \<notin> filesWarnedAbout this
          \<and> warnings (snd (handle e ev this)) = [warningMessage p]
          \<and> filesWarnedAbout (fst (handle e ev this)) = insert p (filesWarnedAbout this))"
  by (cases ev)
     (auto simp: onDidOpenTextDocument_def onDidChangeTextDocument_def
        onDidCloseTextDocument_def Let_def warnings_append)

lemma run_Cons:
  "run ((e, ev) # evs) this =
     (fst (run evs (fst (handle e ev this))),
      snd (handle e ev this) @ snd (run evs (fst (handle e ev this))))"
  by (simp add: split_def Let_def)

lemma run_filesWarnedAbout_mono:
  "p \<in> filesWarnedAbout this \<Longrightarrow> p \<in> filesWarnedAbout (fst (run evs this))"
proof (induction evs arbitrary: this)
  case Nil
  then show ?case by simp
next
  case (Cons a evs)
  obtain e ev where a: "a = (e, ev)" by (cases a)
  from Cons.prems handle_warnings [of e ev this]
  have "p \<in> filesWarnedAbout (fst (handle e ev this))" by (elim disjE exE conjE) simp_all
  then have "p \<in> filesWarnedAbout (fst (run evs (fst (handle e ev this))))" by (rule Cons.IH)
  then show ?case by (simp only: a run_Cons fst_conv)
qed

lemma run_warned_fresh:
  "warningMessage p \<in> set (warnings (snd (run evs this))) \<Longrightarrow>
     p \<notin> filesWarnedAbout this \<and> p \<in> filesWarnedAbout (fst (run evs this))"
proof (induction evs arbitrary: this)
  case Nil
  then show ?case by simp
next
  case (Cons a evs)
  obtain e ev where a: "a = (e, ev)" by (cases a)
  let ?h = "fst (handle e ev this)"
  from Cons.prems
  have mem: "warningMessage p \<in> set (warnings (snd (handle e ev this)))
             \<or> warningMessage p \<in> set (warnings (snd (run evs ?h)))"
    by (simp add: a run_Cons warnings_append del: run.simps)
  have run: "fst (run (a # evs) this) = fst (run evs ?h)"
    by (simp only: a run_Cons fst_conv)
  from mem show ?case
  proof
    assume here: "warningMessage p \<in> set (warnings (snd (handle e ev this)))"
    from handle_warnings [of e ev this] here
    have "p \<notin> filesWarnedAbout this \<and> p \<in> filesWarnedAbout ?h"
      by (elim disjE exE conjE) (simp_all add: warningMessage_inj)
    then show ?thesis
      using run_filesWarnedAbout_mono [of p ?h evs] by (simp only: run) blast
  next
    assume later: "warningMessage p \<in> set (warnings (snd (run evs ?h)))"
    then have ih: "p \<notin> filesWarnedAbout ?h \<and> p \<in> filesWarnedAbout (fst (run evs ?h))"
      by (rule Cons.IH)
    from handle_warnings [of e ev this] ih
    have "p \<notin> filesWarnedAbout this" by (elim disjE exE conjE) simp_all
    with ih show ?thesis by (simp only: run) blast
  qed
qed

lemma run_warnings_distinct: "distinct (warnings (snd (run evs this)))"
proof (induction evs arbitrary: this)
  case Nil
  show ?case by simp
next
  case (Cons a evs)
  obtain e ev where a: "a = (e, ev)" by (cases a)
  let ?h = "fst (handle e ev this)"
  have ih: "distinct (warnings (snd (run evs ?h)))" by (rule Cons.IH)
  from handle_warnings [of e ev this] show ?case
  proof (elim disjE exE conjE)
    assume "warnings (snd (handle e ev this)) = []"
    with ih show ?thesis by (simp add: a run_Cons warnings_append del: run.simps)
  next
    fix p
    assume w: "warnings (snd (handle e ev this)) = [warningMessage p]"
      and h: "filesWarnedAbout ?h = insert p (filesWarnedAbout this)"
    have "warningMessage p \<notin> set (warnings (snd (run evs ?h)))"
      using run_warned_fresh [of p evs ?h] h by blast
    with ih w show ?thesis by (simp add: a run_Cons warnings_append del: run.simps)
  qed
qed

lemma distinct_count_list_le_1: "distinct xs \<Longrightarrow> count_list xs x \<le> 1"
  by (induction xs) auto


text \<open>The edits emitted for change events, and their replay.\<close>

lemma editTriple_convertChange: "editTriple \<circ> convertChange doc = changeTriple"
  by (rule ext) (simp add: editTriple_def changeTriple_def convertChange_def)

text \<open>A change event on an analyzable document with path \<open>p\<close>: nothing is emitted for an
  empty list of change records, one batch of converted edits otherwise.\<close>

lemma emittedEdits_change:
  assumes "isAnalyzable e (document ev)" and "fsPath e (uri (document ev)) = p"
  shows "emittedEdits p (snd (onDidChangeTextDocument e ev this))
         = (if contentChanges ev = [] then []
            else [map (convertChange (document ev)) (contentChanges ev)])"
  using assms
  by (simp add: onDidChangeTextDocument_def Let_def emittedEdits_append)

lemma requests_change:
  assumes "isAnalyzable e (document ev)" and "fsPath e (uri (document ev)) = p"
  shows "requests (snd (onDidChangeTextDocument e ev this))
         = map (\<lambda>edits. Map.empty(p \<mapsto> ChangeContentOverlay edits))
             (emittedEdits p (snd (onDidChangeTextDocument e ev this)))"
  using assms
  by (simp add: onDidChangeTextDocument_def Let_def emittedEdits_append requests_append)

lemma replay_append: "replay ap (xs @ ys) pre = replay ap ys (replay ap xs pre)"
  by (simp add: replay_def)

lemma replay_change:
  assumes "isAnalyzable e (document ev)" and "fsPath e (uri (document ev)) = p"
    and "\<forall>s. ap [] s = s"
  shows "replay ap (emittedEdits p (snd (onDidChangeTextDocument e ev this))) pre
         = ap (map changeTriple (contentChanges ev)) pre"
  using assms
  by (simp add: emittedEdits_change replay_def editTriple_convertChange)


text \<open>The tokens of the tracker: they are never dropped, and a step changes a token by
  its notification only.\<close>

lemma length_tokens_exec: "length (tokens t) \<le> length (tokens (exec s t))"
  by (induction s t rule: exec.induct)
     (simp_all add: analysisStarted_def analysisFinished_def awaitCurrentRound_def
        awaitNextRound_def)

lemma nth_tokens_exec:
  assumes "k < length (tokens t)"
  shows "tokens (exec s t) ! k =
           (case s of Notify AnalysisStarted \<Rightarrow> started (tokens t ! k)
                    | Notify AnalysisFinished \<Rightarrow> finished (tokens t ! k)
                    | other \<Rightarrow> tokens t ! k)"
  using assms
  by (induction s t rule: exec.induct)
     (simp_all add: analysisStarted_def analysisFinished_def awaitCurrentRound_def
        awaitNextRound_def nth_append)

lemma resolved_fold_exec:
  assumes "k < length (tokens t)"
  shows "resolved k (fold exec ss t) =
           (case tokens t ! k of PendingStart \<Rightarrow> cycleOccurs ss
                               | PendingFinish \<Rightarrow> finishOccurs ss
                               | Resolved \<Rightarrow> True)"
  using assms
proof (induction ss arbitrary: t)
  case Nil
  then show ?case by (simp add: resolved_def split: token.splits)
next
  case (Cons s ss)
  have k: "k < length (tokens (exec s t))"
    using Cons.prems length_tokens_exec [of t s] by simp
  note ih = Cons.IH [OF k] and nth = nth_tokens_exec [OF Cons.prems, of s]
  show ?case
  proof (cases s)
    case (Notify n)
    with ih nth show ?thesis by (cases n; cases "tokens t ! k"; simp)
  next
    case AwaitCurrentRound
    with ih nth show ?thesis by (cases "tokens t ! k"; simp)
  next
    case AwaitNextRound
    with ih nth show ?thesis by (cases "tokens t ! k"; simp)
  qed
qed

section \<open>Claims\<close>

text \<open>
  C1. For an analyzable document D, whatever its text is, the event sequence open D;
  change D with the one record (offset 0, length 1, replacement \<open>"ab"\<close>); close D makes
  exactly three requests, in order: an add overlay whose content is the full text D has
  when it is opened (\<open>document.getText()\<close>), a change overlay whose edits are that one
  edit, a remove overlay. The open handler alone emits the add with the document's full
  current text, the close handler alone the remove. With the text \<open>"a"\<close> this is the
  sequence add \<open>"a"\<close>, change, remove of the scenario.
\<close>

theorem C1_open_change_close_sequence:
  assumes "isAnalyzable e1 D1" and "isAnalyzable e2 D2" and "isAnalyzable e3 D3"
    and "fsPath e1 (uri D1) = p" and "fsPath e2 (uri D2) = p" and "fsPath e3 (uri D3) = p"
  shows "requests (snd (run
            [(e1, DidOpenTextDocument D1),
             (e2, DidChangeTextDocument \<lparr> document = D2, contentChanges =
                    [\<lparr> rangeOffset = 0, rangeLength = 1, text_c = ''ab'' \<rparr>] \<rparr>),
             (e3, DidCloseTextDocument D3)] this))
         = [ Map.empty(p \<mapsto> AddContentOverlay (getText D1)),
             Map.empty(p \<mapsto> ChangeContentOverlay
                    [\<lparr> id_e = '''', length_e = 1, offset = 0, replacement = ''ab'' \<rparr>]),
             Map.empty(p \<mapsto> RemoveContentOverlay) ]
       \<and> snd (onDidOpenTextDocument e1 D1 this)
         = [analysisUpdateContent (Map.empty(p \<mapsto> AddContentOverlay (getText D1)))]
       \<and> snd (onDidCloseTextDocument e3 D3 this)
         = [analysisUpdateContent (Map.empty(p \<mapsto> RemoveContentOverlay))]"
  using assms
  by (simp add: onDidOpenTextDocument_def onDidChangeTextDocument_def
      onDidCloseTextDocument_def convertChange_def Let_def requests_append)

theorem C1_open_change_close_sequence_witness:
  "requests (snd (run
            [(env0, DidOpenTextDocument \<lparr> uri = ''/w/a.dart'', getText = ''a'' \<rparr>),
             (env0, DidChangeTextDocument
                \<lparr> document = \<lparr> uri = ''/w/a.dart'', getText = ''ab'' \<rparr>,
                  contentChanges = [\<lparr> rangeOffset = 0, rangeLength = 1, text_c = ''ab'' \<rparr>] \<rparr>),
             (env0, DidCloseTextDocument \<lparr> uri = ''/w/a.dart'', getText = ''ab'' \<rparr>)]
            \<lparr> filesWarnedAbout = {} \<rparr>))
         = [ Map.empty(''/w/a.dart'' \<mapsto> AddContentOverlay ''a''),
             Map.empty(''/w/a.dart'' \<mapsto> ChangeContentOverlay
                    [\<lparr> id_e = '''', length_e = 1, offset = 0, replacement = ''ab'' \<rparr>]),
             Map.empty(''/w/a.dart'' \<mapsto> RemoveContentOverlay) ]"
  using C1_open_change_close_sequence
    [of env0 "\<lparr> uri = ''/w/a.dart'', getText = ''a'' \<rparr>"
        env0 "\<lparr> uri = ''/w/a.dart'', getText = ''ab'' \<rparr>"
        env0 "\<lparr> uri = ''/w/a.dart'', getText = ''ab'' \<rparr>"
        "''/w/a.dart''" "\<lparr> filesWarnedAbout = {} \<rparr>"]
  by (simp add: env0_def)

text \<open>
  C2. Take any sequence of change events on one analyzable document (path \<open>p\<close>), and
  any way \<open>ap\<close> of applying a batch of replacements to a text that leaves the text as it
  is when the batch is empty. Replaying the edit lists that \<open>onDidChangeTextDocument\<close>
  emitted, in the order of emission, each batch on the text the batches before it have
  left, starting from the text before the edits, gives the text the editor has after
  applying the change records of the events the same way. The requests of the sequence
  are exactly those change overlays on \<open>p\<close>, so nothing else reaches the analyzer.
\<close>

theorem C2_replay_reproduces_text:
  assumes "list_all (isChangeOf p) evs" and "\<forall>s. ap [] s = s"
  shows "replay ap (emittedEdits p (snd (run evs this))) pre
         = editorText ap (changeBatches evs) pre
       \<and> requests (snd (run evs this))
         = map (\<lambda>edits. Map.empty(p \<mapsto> ChangeContentOverlay edits))
             (emittedEdits p (snd (run evs this)))"
  using assms(1)
proof (induction evs arbitrary: this pre)
  case Nil
  show ?case by (simp add: replay_def editorText_def)
next
  case (Cons a evs)
  obtain e x where a: "a = (e, x)" by (cases a)
  from Cons.prems a obtain ev where x: "x = DidChangeTextDocument ev"
    and an: "isAnalyzable e (document ev)" and pa: "fsPath e (uri (document ev)) = p"
    by (cases x) simp_all
  from Cons.prems have rest: "list_all (isChangeOf p) evs" by simp
  let ?h = "fst (onDidChangeTextDocument e ev this)"
  let ?pre = "ap (map changeTriple (contentChanges ev)) pre"
  note ih = Cons.IH [OF rest, of ?h ?pre]
  have run: "snd (run (a # evs) this)
             = snd (onDidChangeTextDocument e ev this) @ snd (run evs ?h)"
    by (simp add: a x run_Cons del: run.simps)
  have ed: "editorText ap (changeBatches (a # evs)) pre = editorText ap (changeBatches evs) ?pre"
    by (simp add: a x editorText_def)
  have rc: "replay ap (emittedEdits p (snd (onDidChangeTextDocument e ev this))) pre = ?pre"
    using an pa assms(2) by (rule replay_change)
  have rq: "requests (snd (onDidChangeTextDocument e ev this))
         = map (\<lambda>edits. Map.empty(p \<mapsto> ChangeContentOverlay edits))
             (emittedEdits p (snd (onDidChangeTextDocument e ev this)))"
    using an pa by (rule requests_change)
  have "replay ap (emittedEdits p (snd (run (a # evs) this))) pre
        = replay ap (emittedEdits p (snd (run evs ?h))) ?pre"
    by (simp only: run emittedEdits_append replay_append rc)
  with ih ed have one: "replay ap (emittedEdits p (snd (run (a # evs) this))) pre
        = editorText ap (changeBatches (a # evs)) pre"
    by simp
  from ih have two: "requests (snd (run (a # evs) this))
         = map (\<lambda>edits. Map.empty(p \<mapsto> ChangeContentOverlay edits))
             (emittedEdits p (snd (run (a # evs) this)))"
    by (simp only: run requests_append emittedEdits_append map_append rq)
  from one two show ?case ..
qed

theorem C2_replay_reproduces_text_witness:
  "list_all (isChangeOf ''/w/a.dart'')
     [(env0, DidChangeTextDocument
         \<lparr> document = \<lparr> uri = ''/w/a.dart'', getText = ''ab'' \<rparr>,
           contentChanges = [\<lparr> rangeOffset = 0, rangeLength = 1, text_c = ''ab'' \<rparr>] \<rparr>),
      (env0, DidChangeTextDocument
         \<lparr> document = \<lparr> uri = ''/w/a.dart'', getText = ''ab'' \<rparr>, contentChanges = [] \<rparr>),
      (env0, DidChangeTextDocument
         \<lparr> document = \<lparr> uri = ''/w/a.dart'', getText = ''xbc'' \<rparr>,
           contentChanges = [\<lparr> rangeOffset = 2, rangeLength = 0, text_c = ''c'' \<rparr>,
                             \<lparr> rangeOffset = 0, rangeLength = 1, text_c = ''x'' \<rparr>] \<rparr>)]
   \<and> replay spliceAll (emittedEdits ''/w/a.dart'' (snd (run
     [(env0, DidChangeTextDocument
         \<lparr> document = \<lparr> uri = ''/w/a.dart'', getText = ''ab'' \<rparr>,
           contentChanges = [\<lparr> rangeOffset = 0, rangeLength = 1, text_c = ''ab'' \<rparr>] \<rparr>),
      (env0, DidChangeTextDocument
         \<lparr> document = \<lparr> uri = ''/w/a.dart'', getText = ''ab'' \<rparr>, contentChanges = [] \<rparr>),
      (env0, DidChangeTextDocument
         \<lparr> document = \<lparr> uri = ''/w/a.dart'', getText = ''xbc'' \<rparr>,
           contentChanges = [\<lparr> rangeOffset = 2, rangeLength = 0, text_c = ''c'' \<rparr>,
                             \<lparr> rangeOffset = 0, rangeLength = 1, text_c = ''x'' \<rparr>] \<rparr>)]
     \<lparr> filesWarnedAbout = {} \<rparr>))) ''a'' = ''xbc''"
  using C2_replay_reproduces_text
    [of "''/w/a.dart''"
     "[(env0, DidChangeTextDocument
         \<lparr> document = \<lparr> uri = ''/w/a.dart'', getText = ''ab'' \<rparr>,
           contentChanges = [\<lparr> rangeOffset = 0, rangeLength = 1, text_c = ''ab'' \<rparr>] \<rparr>),
      (env0, DidChangeTextDocument
         \<lparr> document = \<lparr> uri = ''/w/a.dart'', getText = ''ab'' \<rparr>, contentChanges = [] \<rparr>),
      (env0, DidChangeTextDocument
         \<lparr> document = \<lparr> uri = ''/w/a.dart'', getText = ''xbc'' \<rparr>,
           contentChanges = [\<lparr> rangeOffset = 2, rangeLength = 0, text_c = ''c'' \<rparr>,
                             \<lparr> rangeOffset = 0, rangeLength = 1, text_c = ''x'' \<rparr>] \<rparr>)]"
     spliceAll "\<lparr> filesWarnedAbout = {} \<rparr>" "''a''"]
  by (simp add: env0_def spliceAll_def editorText_def changeTriple_def)

text \<open>
  C3. For a change event with at least one change record on an analyzable document, the
  handler makes one request, a change overlay on the document's path whose edits are the
  change records in their order, one edit for each record: \<open>offset\<close> is the record's
  \<open>rangeOffset\<close>, \<open>length\<close> its \<open>rangeLength\<close>, \<open>replacement\<close> its \<open>text\<close> (and
  \<open>id\<close> is the empty string).
\<close>

theorem C3_one_edit_per_change_record:
  assumes "isAnalyzable e (document ev)" and "contentChanges ev \<noteq> []"
  shows "requests (snd (onDidChangeTextDocument e ev this))
         = [ Map.empty(fsPath e (uri (document ev)) \<mapsto> ChangeContentOverlay
               (map (\<lambda>c. \<lparr> id_e = '''', length_e = rangeLength c, offset = rangeOffset c,
                             replacement = text_c c \<rparr>) (contentChanges ev))) ]"
  using assms
  by (simp add: onDidChangeTextDocument_def convertChange_fun Let_def requests_append)

theorem C3_one_edit_per_change_record_witness:
  "requests (snd (onDidChangeTextDocument env0
      \<lparr> document = \<lparr> uri = ''/w/a.dart'', getText = ''xyb'' \<rparr>,
        contentChanges = [\<lparr> rangeOffset = 1, rangeLength = 0, text_c = ''y'' \<rparr>,
                          \<lparr> rangeOffset = 0, rangeLength = 1, text_c = ''x'' \<rparr>] \<rparr>
      \<lparr> filesWarnedAbout = {} \<rparr>))
   = [ Map.empty(''/w/a.dart'' \<mapsto> ChangeContentOverlay
         [\<lparr> id_e = '''', length_e = 0, offset = 1, replacement = ''y'' \<rparr>,
          \<lparr> id_e = '''', length_e = 1, offset = 0, replacement = ''x'' \<rparr>]) ]"
  using C3_one_edit_per_change_record
    [of env0 "\<lparr> document = \<lparr> uri = ''/w/a.dart'', getText = ''xyb'' \<rparr>,
        contentChanges = [\<lparr> rangeOffset = 1, rangeLength = 0, text_c = ''y'' \<rparr>,
                          \<lparr> rangeOffset = 0, rangeLength = 1, text_c = ''x'' \<rparr>] \<rparr>"
        "\<lparr> filesWarnedAbout = {} \<rparr>"]
  by (simp add: env0_def)

text \<open>
  C4 as stated fails: on a handler constructed with no document open, a change of an
  analyzable document makes the one request with the change overlay, and none that adds
  the document's text.
\<close>

theorem C4_change_without_open_counterexample:
  "snd (new_FileChangeHandler env0 []) = []
   \<and> snd (run [(env0, DidChangeTextDocument
                \<lparr> document = \<lparr> uri = ''/w/a.dart'', getText = ''ab'' \<rparr>,
                  contentChanges = [\<lparr> rangeOffset = 0, rangeLength = 1, text_c = ''ab'' \<rparr>] \<rparr>)]
            (fst (new_FileChangeHandler env0 [])))
       = [analysisUpdateContent (Map.empty(''/w/a.dart'' \<mapsto> ChangeContentOverlay
            [\<lparr> id_e = '''', length_e = 1, offset = 0, replacement = ''ab'' \<rparr>]))]
   \<and> \<not> emitsAdd ''/w/a.dart'' ''ab''
        (snd (run [(env0, DidChangeTextDocument
                \<lparr> document = \<lparr> uri = ''/w/a.dart'', getText = ''ab'' \<rparr>,
                  contentChanges = [\<lparr> rangeOffset = 0, rangeLength = 1, text_c = ''ab'' \<rparr>] \<rparr>)]
            (fst (new_FileChangeHandler env0 []))))"
  by (simp add: new_FileChangeHandler_def env0_def onDidChangeTextDocument_def
      convertChange_def Let_def)

text \<open>
  C4 (as the code has it). The handler keeps no record of which documents are open. A
  change event with at least one change record on an analyzable document, after any
  earlier events (an open of that document among them or not), adds exactly one request,
  a change overlay on the document's path; the change handler emits no add overlay,
  whatever its state.
\<close>

theorem C4_change_emits_change_overlay_only:
  assumes "isAnalyzable e (document ev)" and "contentChanges ev \<noteq> []"
  shows "requests (snd (run (evs @ [(e, DidChangeTextDocument ev)]) this))
         = requests (snd (run evs this))
           @ [ Map.empty(fsPath e (uri (document ev)) \<mapsto>
                 ChangeContentOverlay (map (convertChange (document ev)) (contentChanges ev))) ]
       \<and> \<not> emitsAdd p c (snd (onDidChangeTextDocument e ev this'))"
  using assms
  by (simp add: run_append run_single onDidChangeTextDocument_def Let_def requests_append
      emitsAdd_append)

theorem C4_change_emits_change_overlay_only_witness:
  "requests (snd (run ([] @ [(env0, DidChangeTextDocument
                \<lparr> document = \<lparr> uri = ''/w/a.dart'', getText = ''ab'' \<rparr>,
                  contentChanges = [\<lparr> rangeOffset = 0, rangeLength = 1, text_c = ''ab'' \<rparr>] \<rparr>)])
            \<lparr> filesWarnedAbout = {} \<rparr>))
     = [ Map.empty(''/w/a.dart'' \<mapsto> ChangeContentOverlay
            [\<lparr> id_e = '''', length_e = 1, offset = 0, replacement = ''ab'' \<rparr>]) ]"
  using C4_change_emits_change_overlay_only
    [of env0 "\<lparr> document = \<lparr> uri = ''/w/a.dart'', getText = ''ab'' \<rparr>,
                  contentChanges = [\<lparr> rangeOffset = 0, rangeLength = 1, text_c = ''ab'' \<rparr>] \<rparr>"
        "[]" "\<lparr> filesWarnedAbout = {} \<rparr>"]
  by (simp add: env0_def convertChange_def)

text \<open>
  C5 as stated fails: on a handler constructed with no document open, closing an
  analyzable document that was never opened makes a request with a remove overlay.
\<close>

theorem C5_close_without_open_counterexample:
  "snd (new_FileChangeHandler env0 []) = []
   \<and> snd (run [(env0, DidCloseTextDocument \<lparr> uri = ''/w/a.dart'', getText = ''a'' \<rparr>)]
            (fst (new_FileChangeHandler env0 [])))
       = [analysisUpdateContent (Map.empty(''/w/a.dart'' \<mapsto> RemoveContentOverlay))]"
  by (simp add: new_FileChangeHandler_def env0_def onDidCloseTextDocument_def)

text \<open>
  C5 (as the code has it). A close event, after any earlier events (an open of that
  document among them or not), adds exactly one effect when the document is analyzable,
  the request with a remove overlay on its path, and no effect when it is not
  analyzable. No branch of the handler throws.
\<close>

theorem C5_close_emits_remove_when_analyzable:
  "snd (run (evs @ [(e, DidCloseTextDocument td)]) this)
   = snd (run evs this)
     @ (if isAnalyzable e td
        then [analysisUpdateContent (Map.empty(fsPath e (uri td) \<mapsto> RemoveContentOverlay))]
        else [])"
  by (simp add: run_append run_single onDidCloseTextDocument_def)

theorem C5_close_emits_remove_when_analyzable_witness:
  "snd (run ([] @ [(env1, DidCloseTextDocument \<lparr> uri = ''/w/notes.txt'', getText = ''a'' \<rparr>)])
          \<lparr> filesWarnedAbout = {} \<rparr>) = []
   \<and> snd (run ([] @ [(env1, DidCloseTextDocument \<lparr> uri = ''/w/a.dart'', getText = ''a'' \<rparr>)])
          \<lparr> filesWarnedAbout = {} \<rparr>)
     = [analysisUpdateContent (Map.empty(''/w/a.dart'' \<mapsto> RemoveContentOverlay))]"
  using C5_close_emits_remove_when_analyzable
    [of "[]" env1 "\<lparr> uri = ''/w/notes.txt'', getText = ''a'' \<rparr>" "\<lparr> filesWarnedAbout = {} \<rparr>"]
    C5_close_emits_remove_when_analyzable
    [of "[]" env1 "\<lparr> uri = ''/w/a.dart'', getText = ''a'' \<rparr>" "\<lparr> filesWarnedAbout = {} \<rparr>"]
  by (simp add: env1_def suffix_to_prefix)

text \<open>
  C6. A change event whose list of change records is empty has no effect at all: no
  request to the analyzer (and no warning), and the handler's state is as before.
\<close>

theorem C6_empty_change_list_suppressed:
  assumes "contentChanges ev = []"
  shows "onDidChangeTextDocument e ev this = (this, [])"
  using assms by (simp add: onDidChangeTextDocument_def)

theorem C6_empty_change_list_suppressed_witness:
  "onDidChangeTextDocument env0
      \<lparr> document = \<lparr> uri = ''/w/a.dart'', getText = ''a'' \<rparr>, contentChanges = [] \<rparr>
      \<lparr> filesWarnedAbout = {} \<rparr>
   = (\<lparr> filesWarnedAbout = {} \<rparr>, [])"
  using C6_empty_change_list_suppressed
    [of "\<lparr> document = \<lparr> uri = ''/w/a.dart'', getText = ''a'' \<rparr>, contentChanges = [] \<rparr>"
        env0 "\<lparr> filesWarnedAbout = {} \<rparr>"]
  by simp

text \<open>
  C7. An open, change or close event on a document that is not analyzable has no effect
  at all: the handler returns with no request made, and its state is as before.
\<close>

theorem C7_non_analyzable_ignored:
  assumes "\<not> isAnalyzable e (documentOf ev)"
  shows "handle e ev this = (this, [])"
  using assms
  by (cases ev)
     (simp_all add: onDidOpenTextDocument_def onDidChangeTextDocument_def
        onDidCloseTextDocument_def)

theorem C7_non_analyzable_ignored_witness:
  "handle env1 (DidCloseTextDocument \<lparr> uri = ''/w/notes.txt'', getText = ''a'' \<rparr>)
      \<lparr> filesWarnedAbout = {} \<rparr>
   = (\<lparr> filesWarnedAbout = {} \<rparr>, [])"
  using C7_non_analyzable_ignored
    [of env1 "DidCloseTextDocument \<lparr> uri = ''/w/notes.txt'', getText = ''a'' \<rparr>"
        "\<lparr> filesWarnedAbout = {} \<rparr>"]
  by (simp add: env1_def suffix_to_prefix)

text \<open>
  C8. Let a caller obtain a token from \<open>awaitNextRound\<close>, in any state of the tracker
  (busy or idle; right after an edit was sent, for one). After any sequence of later
  steps (notifications, and calls of other waiters) the token is resolved if and only if
  the sequence contains an "analysis started" and, after it, an "analysis finished": it
  is never resolved before a full start-to-finish cycle has taken place after the call,
  and in particular not by the finish of a round that was already running.
\<close>

theorem C8_next_round_token_needs_full_cycle:
  "resolved (fst (awaitNextRound t)) (fold exec ss (snd (awaitNextRound t))) = cycleOccurs ss"
  using resolved_fold_exec [of "fst (awaitNextRound t)" "snd (awaitNextRound t)" ss]
  by (simp add: awaitNextRound_def)

theorem C8_next_round_token_needs_full_cycle_witness:
  "\<not> resolved (fst (awaitNextRound (analysisStarted new_CompletionTracker)))
       (fold exec [Notify AnalysisFinished]
          (snd (awaitNextRound (analysisStarted new_CompletionTracker))))
   \<and> resolved (fst (awaitNextRound (analysisStarted new_CompletionTracker)))
       (fold exec [Notify AnalysisFinished, AwaitCurrentRound, Notify AnalysisStarted,
                   Notify AnalysisFinished]
          (snd (awaitNextRound (analysisStarted new_CompletionTracker))))"
  using C8_next_round_token_needs_full_cycle
      [of "analysisStarted new_CompletionTracker" "[Notify AnalysisFinished]"]
    C8_next_round_token_needs_full_cycle
      [of "analysisStarted new_CompletionTracker"
          "[Notify AnalysisFinished, AwaitCurrentRound, Notify AnalysisStarted,
            Notify AnalysisFinished]"]
  by simp

text \<open>
  C9. In a session (from the construction of the handler on) the warning about a path is
  shown at most once: the constructor shows none, and the events after it show the
  warning about a path at most once, whatever the events and their surroundings are. A change event that shows the warning about a path leaves the path
  in \<open>filesWarnedAbout\<close>; and once a path is in \<open>filesWarnedAbout\<close>, no later sequence
  of events shows the warning about it again, and the path stays in the set.
\<close>

theorem C9_warned_once_per_path:
  "warnings (snd (new_FileChangeHandler e0 tds)) = []
   \<and> count_list (warnings (snd (run evs (fst (new_FileChangeHandler e0 tds))))) (warningMessage p) \<le> 1
   \<and> (warningMessage q \<in> set (warnings (snd (handle e ev this)))
        \<longrightarrow> q \<in> filesWarnedAbout (fst (handle e ev this)))
   \<and> (q \<in> filesWarnedAbout this
        \<longrightarrow> warningMessage q \<notin> set (warnings (snd (run later this)))
            \<and> q \<in> filesWarnedAbout (fst (run later this)))"
proof -
  have one: "count_list (warnings (snd (run evs (fst (new_FileChangeHandler e0 tds)))))
                    (warningMessage p) \<le> 1"
    by (rule distinct_count_list_le_1) (rule run_warnings_distinct)
  have two: "warningMessage q \<in> set (warnings (snd (handle e ev this)))
               \<longrightarrow> q \<in> filesWarnedAbout (fst (handle e ev this))"
    using run_warned_fresh [of q "[(e, ev)]" this] by (simp add: run_single)
  have three: "q \<in> filesWarnedAbout this
        \<longrightarrow> warningMessage q \<notin> set (warnings (snd (run later this)))
            \<and> q \<in> filesWarnedAbout (fst (run later this))"
    using run_warned_fresh [of q later this] run_filesWarnedAbout_mono [of q this later]
    by blast
  have zero: "warnings (snd (new_FileChangeHandler e0 tds)) = []"
    by (simp add: new_FileChangeHandler_def new_FileChangeHandler_no_warnings)
  from zero one two three show ?thesis by blast
qed

theorem C9_warned_once_per_path_witness:
  "warnings (snd (handle env1
       (DidChangeTextDocument \<lparr> document = \<lparr> uri = ''/x/a.dart'', getText = ''ab'' \<rparr>,
           contentChanges = [\<lparr> rangeOffset = 0, rangeLength = 1, text_c = ''ab'' \<rparr>] \<rparr>)
       \<lparr> filesWarnedAbout = {} \<rparr>)) = [warningMessage ''/x/a.dart'']
   \<and> ''/x/a.dart'' \<in> filesWarnedAbout (fst (handle env1
       (DidChangeTextDocument \<lparr> document = \<lparr> uri = ''/x/a.dart'', getText = ''ab'' \<rparr>,
           contentChanges = [\<lparr> rangeOffset = 0, rangeLength = 1, text_c = ''ab'' \<rparr>] \<rparr>)
       \<lparr> filesWarnedAbout = {} \<rparr>))
   \<and> warningMessage ''/x/a.dart'' \<notin> set (warnings (snd (run
       [(env1, DidChangeTextDocument \<lparr> document = \<lparr> uri = ''/x/a.dart'', getText = ''abc'' \<rparr>,
           contentChanges = [\<lparr> rangeOffset = 2, rangeLength = 0, text_c = ''c'' \<rparr>] \<rparr>)]
       \<lparr> filesWarnedAbout = {''/x/a.dart''} \<rparr>)))"
  using C9_warned_once_per_path
    [of env1 "[]" "[]" "''/x/a.dart''" "''/x/a.dart''" env1
        "DidChangeTextDocument \<lparr> document = \<lparr> uri = ''/x/a.dart'', getText = ''ab'' \<rparr>,
           contentChanges = [\<lparr> rangeOffset = 0, rangeLength = 1, text_c = ''ab'' \<rparr>] \<rparr>"
        "\<lparr> filesWarnedAbout = {} \<rparr>"]
    C9_warned_once_per_path
    [of env1 "[]" "[]" "''/x/a.dart''" "''/x/a.dart''" env1
        "DidChangeTextDocument \<lparr> document = \<lparr> uri = ''/x/a.dart'', getText = ''ab'' \<rparr>,
           contentChanges = [\<lparr> rangeOffset = 0, rangeLength = 1, text_c = ''ab'' \<rparr>] \<rparr>"
        "\<lparr> filesWarnedAbout = {''/x/a.dart''} \<rparr>"
        "[(env1, DidChangeTextDocument \<lparr> document = \<lparr> uri = ''/x/a.dart'', getText = ''abc'' \<rparr>,
           contentChanges = [\<lparr> rangeOffset = 2, rangeLength = 0, text_c = ''c'' \<rparr>] \<rparr>)]"]
  by (simp add: env1_def suffix_to_prefix onDidChangeTextDocument_def Let_def warningMessage_def)

text \<open>
  C10. Every request the handler makes carries a \<open>files\<close> object with exactly one
  entry, the path of the document the event is about: an event makes at most one
  request, the keys of its \<open>files\<close> are that one path, and so every request of every
  event sequence has one entry.
\<close>

theorem C10_one_file_per_request:
  "length (requests (snd (handle e ev this))) \<le> 1
   \<and> (\<forall>files \<in> set (requests (snd (handle e ev this))).
         dom files = {fsPath e (uri (documentOf ev))})
   \<and> (\<forall>files \<in> set (requests (snd (run evs this))). card (dom files) = 1)"
proof -
  have one: "length (requests (snd (handle e ev this))) \<le> 1"
    using requests_handle [of e ev this] by auto
  have key: "\<forall>files \<in> set (requests (snd (handle e ev this))).
               dom files = {fsPath e (uri (documentOf ev))}"
    using requests_handle [of e ev this] by (elim disjE exE; simp)
  have all: "\<forall>files \<in> set (requests (snd (run evs this))). card (dom files) = 1"
    by (rule requests_run_single_entry)
  from one key all show ?thesis by blast
qed

theorem C10_one_file_per_request_witness:
  "Map.empty(''/w/a.dart'' \<mapsto> RemoveContentOverlay)
     \<in> set (requests (snd (handle env0
          (DidCloseTextDocument \<lparr> uri = ''/w/a.dart'', getText = ''a'' \<rparr>)
          \<lparr> filesWarnedAbout = {} \<rparr>)))
   \<and> dom (Map.empty(''/w/a.dart'' \<mapsto> RemoveContentOverlay)) = {''/w/a.dart''}
   \<and> card (dom (Map.empty(''/w/a.dart'' \<mapsto> RemoveContentOverlay))) = 1"
  using C10_one_file_per_request
    [of env0 "DidCloseTextDocument \<lparr> uri = ''/w/a.dart'', getText = ''a'' \<rparr>"
        "\<lparr> filesWarnedAbout = {} \<rparr>"
        "[(env0, DidCloseTextDocument \<lparr> uri = ''/w/a.dart'', getText = ''a'' \<rparr>)]"]
  by (simp add: env0_def onDidCloseTextDocument_def)

end
